theory Spec2Isabelle
  imports Complex_Main "HOL-Library.Sublist"
begin

section \<open>The job record (part_002, lines 6-30)\<close>

text \<open>
  The job queue exists in two revisions in the repository: the two-stage module
  (\<^verbatim>\<open>src/unnamed/part_002\<close>, whose \<^verbatim>\<open>createJob\<close> takes the \<^verbatim>\<open>visualPerturb\<close> flag
  that \<^verbatim>\<open>uploadRouter.ts\<close> passes) and the single-stage module
  \<^verbatim>\<open>src/server/jobQueue.ts\<close>. The first is embedded under the source's names; the
  \<^verbatim>\<open>processJob\<close> of the second is embedded as \<open>processJob_single\<close>.

  Numbers that the wire protocol and the clock deliver are integers here (\<open>percent\<close>
  is an integer percentage, \<^verbatim>\<open>Date.now()\<close> is a millisecond count). A JavaScript
  \<^verbatim>\<open>undefined\<close> in an optional field is \<open>None\<close>.
\<close>

datatype JobStatus = Queued | Processing | Completed | Error

record ProcessingStep =
  step :: string
  percent :: int
  message :: string
  timestamp :: int

record Job =
  id' :: string
  originalName :: string
  inputPath :: string
  outputPath :: "string option"
  downloadUrl :: "string option"
  status :: JobStatus
  progress :: int
  currentStep :: string
  steps :: "ProcessingStep list"
  error :: "string option"
  createdAt :: int
  completedAt :: "int option"
  expiresAt :: "int option"
  visualPerturb :: bool

text \<open>
  A decoded stdout line, \<^verbatim>\<open>{ step?, percent?, message?, error? }\<close> (part_002, line 102).
\<close>

record parsed =
  p_step :: "string option"
  p_percent :: "int option"
  p_message :: "string option"
  p_error :: "string option"

text \<open>JavaScript truthiness of an optional string: present and not empty.\<close>

definition truthy :: "string option \<Rightarrow> bool" where
  "truthy v = (case v of None \<Rightarrow> False | Some s \<Rightarrow> s \<noteq> [])"

text \<open>The nullish coalescing operator \<^verbatim>\<open>a ?? b\<close>.\<close>

definition nullish :: "'a option \<Rightarrow> 'a \<Rightarrow> 'a" where
  "nullish a b = (case a of None \<Rightarrow> b | Some v \<Rightarrow> v)"

section \<open>Strings\<close>

text \<open>
  Strings are byte lists; the accented letters of the Portuguese messages are their
  UTF-8 bytes.
\<close>

definition a_acute :: string where
  "a_acute = [CHR 0xC3, CHR 0xA1]"

definition o_acute :: string where
  "o_acute = [CHR 0xC3, CHR 0xB3]"

definition i_acute :: string where
  "i_acute = [CHR 0xC3, CHR 0xAD]"

definition c_cedilla :: string where
  "c_cedilla = [CHR 0xC3, CHR 0xA7]"

definition a_tilde :: string where
  "a_tilde = [CHR 0xC3, CHR 0xA3]"

text \<open>Decimal rendering of a number inside a template string, \<^verbatim>\<open>`${code}`\<close>.\<close>

fun show_nat :: "nat \<Rightarrow> string" where
  "show_nat n =
     (if n < 10 then [''0123456789'' ! n]
      else show_nat (n div 10) @ [''0123456789'' ! (n mod 10)])"

declare show_nat.simps [simp del]

definition show_int :: "int \<Rightarrow> string" where
  "show_int i = (if i < 0 then CHR ''-'' # show_nat (nat (- i)) else show_nat (nat i))"

text \<open>
  \<^verbatim>\<open>s.replace(/\.mp4$/i, r)\<close>: a final \<^verbatim>\<open>.mp4\<close> in any letter case is replaced by
  \<open>r\<close>; a string without that ending is returned unchanged.
\<close>

definition ends_mp4 :: "string \<Rightarrow> bool" where
  "ends_mp4 s =
     (4 \<le> length s \<and>
      (let e = drop (length s - 4) s
       in e ! 0 = CHR ''.'' \<and> (e ! 1 = CHR ''m'' \<or> e ! 1 = CHR ''M'') \<and>
          (e ! 2 = CHR ''p'' \<or> e ! 2 = CHR ''P'') \<and> e ! 3 = CHR ''4''))"

definition replace_mp4 :: "string \<Rightarrow> string \<Rightarrow> string" where
  "replace_mp4 s r = (if ends_mp4 s then take (length s - 4) s @ r else s)"

section \<open>Progress events (part_002, lines 132-147 and 171-179)\<close>

text \<open>
  \<open>addStep now parsed job\<close>: the callback of the mandatory stage. \<open>now\<close> is the
  value \<^verbatim>\<open>Date.now()\<close> returns while the line is handled.
\<close>

definition addStep :: "int \<Rightarrow> parsed \<Rightarrow> Job \<Rightarrow> Job" where
  "addStep now p job =
     (if truthy (p_error p) then
        job\<lparr>status := Error, error := p_error p, currentStep := ''Erro no processamento''\<rparr>
      else if truthy (p_step p) then
        job\<lparr>progress := nullish (p_percent p) (progress job),
            currentStep := nullish (p_message p) (currentStep job),
            steps := steps job @
              [\<lparr>step = nullish (p_step p) [],
                percent = nullish (p_percent p) 0,
                message = nullish (p_message p) [],
                timestamp = now\<rparr>]\<rparr>
      else job)"

text \<open>
  \<^verbatim>\<open>50 + Math.round((parsed.percent ?? 0) * 0.45)\<close>. \<^verbatim>\<open>Math.round\<close> rounds a half
  towards plus infinity, as \<open>round\<close> does (\<open>round x = \<lfloor>x + 1/2\<rfloor>\<close>). The product
  is exact here; for an integer percent the double-precision product lies on the same
  side of every half as the exact one (its error is below a twentieth, the least
  distance of \<open>9 n / 20\<close> from a half it does not hit, and a half it hits is hit
  exactly by the rounded product).
\<close>

definition remapped :: "int \<Rightarrow> int" where
  "remapped n = 50 + round ((of_int n :: rat) * 0.45)"

text \<open>The callback of the optional stage (part_002, lines 171-179).\<close>

definition visualStep :: "int \<Rightarrow> parsed \<Rightarrow> Job \<Rightarrow> Job" where
  "visualStep now p job =
     (if truthy (p_step p) then
        addStep now (p\<lparr>p_percent := Some (remapped (nullish (p_percent p) 0))\<rparr>) job
      else addStep now p job)"

section \<open>The world outside the module\<close>

text \<open>
  The file system is the set of paths that exist. \<^verbatim>\<open>fs.unlinkSync\<close> removes an
  existing path and throws on a missing one (\<open>None\<close>); every call in the module sits
  in a \<^verbatim>\<open>try { ... } catch {}\<close>, which keeps the file system as it was.
\<close>

definition unlinkSync :: "string set \<Rightarrow> string \<Rightarrow> string set option" where
  "unlinkSync fs p = (if p \<in> fs then Some (fs - {p}) else None)"

text \<open>\<^verbatim>\<open>try { fs.unlinkSync(p); } catch {}\<close>\<close>

definition tryUnlink :: "string set \<Rightarrow> string \<Rightarrow> string set" where
  "tryUnlink fs p = (case unlinkSync fs p of Some fs' \<Rightarrow> fs' | None \<Rightarrow> fs)"

text \<open>\<^verbatim>\<open>try { if (fs.existsSync(p)) fs.unlinkSync(p); } catch {}\<close>\<close>

definition unlinkIfExists :: "string set \<Rightarrow> string \<Rightarrow> string set" where
  "unlinkIfExists fs p = (if p \<in> fs then tryUnlink fs p else fs)"

text \<open>
  How a spawned process ends: the \<^verbatim>\<open>close\<close> event with its exit code, or the
  \<^verbatim>\<open>error\<close> event (the process could not be spawned) with the error's message.
\<close>

datatype proc_end = Close int | SpawnError string

text \<open>
  One run of a stage program, as the module sees it: the decoded stdout lines in
  arrival order, each with the clock reading at the time it is handled; how the
  process ends; and the paths that exist when it has ended. Lines that do not decode
  are dropped by the \<^verbatim>\<open>try { onProgress(JSON.parse(line)); } catch {}\<close> of line 109
  and are not listed.
\<close>

record stage_run =
  events :: "(parsed \<times> int) list"
  ending :: proc_end
  files_after :: "string set"

text \<open>
  The upload (lines 206-218): \<^verbatim>\<open>readFileSync\<close> throws, or \<^verbatim>\<open>storagePut\<close> rejects, or
  it resolves with a url. \<open>files_at_put\<close> are the paths that exist when
  \<^verbatim>\<open>storagePut\<close> settles; \<open>completed_now\<close> and \<open>expires_now\<close> are what the two calls
  of \<^verbatim>\<open>Date.now()\<close> in lines 217 and 218 return.
\<close>

datatype put_result = ReadFail string | PutFail string | PutOk string

record upload_run =
  put :: put_result
  files_at_put :: "string set"
  completed_now :: int
  expires_now :: int

record env =
  audio :: stage_run
  visual :: stage_run
  upload :: upload_run

text \<open>The calls the module makes to its collaborators, in order.\<close>

datatype call = RunPython string "string list" | StoragePut string

text \<open>
  What a run of \<^verbatim>\<open>processJob\<close> leaves: \<open>observed\<close> lists the states of the job at
  every point where control is back in the event loop (while a stage or the upload is
  awaited, after every handled stdout line) and, last, the state when the promise
  resolves.
\<close>

record outcome =
  observed :: "Job list"
  files :: "string set"
  calls :: "call list"

section \<open>The stage runner (part_002, lines 98-118)\<close>

text \<open>The value the promise of \<^verbatim>\<open>runPythonScript\<close> resolves with.\<close>

definition exitCode :: "proc_end \<Rightarrow> int" where
  "exitCode e = (case e of Close code \<Rightarrow> code | SpawnError m \<Rightarrow> 1)"

text \<open>The job after each handled line, in order.\<close>

fun feed :: "(int \<Rightarrow> 'e \<Rightarrow> Job \<Rightarrow> Job) \<Rightarrow> ('e \<times> int) list \<Rightarrow> Job \<Rightarrow> Job list" where
  "feed h [] job = []"
| "feed h ((p, now) # es) job = h now p job # feed h es (h now p job)"

definition runPythonScript ::
  "(int \<Rightarrow> parsed \<Rightarrow> Job \<Rightarrow> Job) \<Rightarrow> stage_run \<Rightarrow> Job \<Rightarrow> Job list \<times> int" where
  "runPythonScript onProgress r job = (feed onProgress (events r) job, exitCode (ending r))"

section \<open>The pipeline (part_002, lines 120-242)\<close>

definition audioScript :: string where
  "audioScript = ''server/process_audio.py''"

definition visualScript :: string where
  "visualScript = ''server/process_video_adversarial.py''"

text \<open>Lines 154-158 and 186-190: the failure of a stage, unless an error is already set.\<close>

definition stageFailed :: "string \<Rightarrow> string \<Rightarrow> Job \<Rightarrow> Job" where
  "stageFailed msg label job =
     (if status job \<noteq> Error then job\<lparr>status := Error, error := Some msg, currentStep := label\<rparr>
      else job)"

definition audioFailedMessage :: "int \<Rightarrow> string" where
  "audioFailedMessage code =
     ''Processamento de '' @ a_acute @ ''udio falhou (c'' @ o_acute @ ''digo '' @ show_int code @ '')''"

definition visualFailedMessage :: "int \<Rightarrow> string" where
  "visualFailedMessage code =
     ''Perturba'' @ c_cedilla @ a_tilde @ ''o visual falhou (c'' @ o_acute @ ''digo '' @ show_int code @ '')''"

definition s3Key :: "Job \<Rightarrow> string" where
  "s3Key job =
     ''processed/'' @ id' job @ ''/'' @ replace_mp4 (originalName job) [] @
     (if visualPerturb job then ''_processed_visual'' else ''_processed'') @ ''.mp4''"

text \<open>Lines 213-218.\<close>

definition markCompleted :: "upload_run \<Rightarrow> string \<Rightarrow> Job \<Rightarrow> Job" where
  "markCompleted u url job =
     job\<lparr>downloadUrl := Some url, status := Completed, progress := 100,
         currentStep := ''Conclu'' @ i_acute @ ''do!'',
         completedAt := Some (completed_now u),
         expiresAt := Some (expires_now u + 24 * 60 * 60 * 1000)\<rparr>"

text \<open>Lines 223-225.\<close>

definition uploadFailed :: "string \<Rightarrow> Job \<Rightarrow> Job" where
  "uploadFailed err job =
     job\<lparr>status := Error, error := Some (''Erro ao enviar para S3: '' @ err),
         currentStep := ''Erro no upload''\<rparr>"

text \<open>
  Lines 201-226 followed by the cleanup of lines 234-236: the upload of the artifact
  at \<open>path\<close> under \<open>key\<close>.
\<close>

definition uploadArtifact :: "upload_run \<Rightarrow> string set \<Rightarrow> string \<Rightarrow> string \<Rightarrow> Job \<Rightarrow> outcome" where
  "uploadArtifact u fs path key job =
     (let job1 = job\<lparr>currentStep := ''Enviando para armazenamento...'', progress := 95\<rparr>
      in case put u of
           ReadFail err \<Rightarrow>
             \<lparr>observed = [uploadFailed err job1],
              files = unlinkIfExists fs (inputPath job1),
              calls = []\<rparr>
         | PutFail err \<Rightarrow>
             \<lparr>observed = [job1, uploadFailed err job1],
              files = unlinkIfExists (files_at_put u) (inputPath job1),
              calls = [StoragePut key]\<rparr>
         | PutOk url \<Rightarrow>
             \<lparr>observed = [job1, markCompleted u url job1],
              files = unlinkIfExists (tryUnlink (files_at_put u) path) (inputPath job1),
              calls = [StoragePut key]\<rparr>)"

text \<open>Lines 199-239.\<close>

definition doUpload :: "upload_run \<Rightarrow> string set \<Rightarrow> string \<Rightarrow> Job \<Rightarrow> outcome" where
  "doUpload u fs finalOutputPath job =
     (if finalOutputPath \<in> fs then uploadArtifact u fs finalOutputPath (s3Key job) job
      else
        \<lparr>observed =
           [stageFailed (''Arquivo de sa'' @ i_acute @ ''da n'' @ a_tilde @ ''o encontrado'')
              ''Erro no processamento'' job],
         files = unlinkIfExists fs (inputPath job),
         calls = []\<rparr>)"

text \<open>Lines 121-126, up to the first \<^verbatim>\<open>await\<close>.\<close>

definition audioOutputPath :: "Job \<Rightarrow> string" where
  "audioOutputPath job = replace_mp4 (inputPath job) ''_processed.mp4''"

definition visualOutputPath :: "Job \<Rightarrow> string" where
  "visualOutputPath job = replace_mp4 (inputPath job) ''_final.mp4''"

definition startJob :: "Job \<Rightarrow> Job" where
  "startJob job =
     job\<lparr>status := Processing, currentStep := ''Iniciando processamento...'',
         outputPath := Some (if visualPerturb job then visualOutputPath job
                             else audioOutputPath job)\<rparr>"

definition processJob :: "env \<Rightarrow> Job \<Rightarrow> outcome" where
  "processJob e job0 =
     (let outP = audioOutputPath job0;
          visP = visualOutputPath job0;
          job1 = startJob job0;
          (tr1, audioCode) = runPythonScript addStep (audio e) job1;
          job2 = last (job1 # tr1);
          fs1 = files_after (audio e);
          call1 = RunPython audioScript [inputPath job1, outP]
      in if audioCode \<noteq> 0 \<or> outP \<notin> fs1 then
           \<lparr>observed = job1 # tr1 @
              [stageFailed (audioFailedMessage audioCode)
                 (''Erro no processamento de '' @ a_acute @ ''udio'') job2],
            files = unlinkIfExists fs1 (inputPath job2),
            calls = [call1]\<rparr>
         else if visualPerturb job2 then
           (let job3 = job2\<lparr>currentStep := ''Aplicando camada visual adversarial...''\<rparr>;
                (tr2, visualCode) = runPythonScript visualStep (visual e) job3;
                job4 = last (job3 # tr2);
                fs2 = unlinkIfExists (files_after (visual e)) outP;
                call2 = RunPython visualScript [outP, visP, ''3.0'']
            in if visualCode \<noteq> 0 \<or> visP \<notin> fs2 then
                 \<lparr>observed = job1 # tr1 @ job3 # tr2 @
                    [stageFailed (visualFailedMessage visualCode)
                       (''Erro na perturba'' @ c_cedilla @ a_tilde @ ''o visual'') job4],
                  files = unlinkIfExists fs2 (inputPath job4),
                  calls = [call1, call2]\<rparr>
               else
                 (let up = doUpload (upload e) fs2 visP job4
                  in \<lparr>observed = job1 # tr1 @ job3 # tr2 @ observed up,
                      files = files up,
                      calls = [call1, call2] @ calls up\<rparr>))
         else
           (let up = doUpload (upload e) fs1 outP job2
            in \<lparr>observed = job1 # tr1 @ observed up,
                files = files up,
                calls = call1 # calls up\<rparr>))"

text \<open>The state in which \<^verbatim>\<open>processJob\<close> leaves the job.\<close>

definition finalJob :: "env \<Rightarrow> Job \<Rightarrow> Job" where
  "finalJob e job0 = last (observed (processJob e job0))"

section \<open>Creation (part_002, lines 37-53)\<close>

text \<open>The object literal of lines 38-48; \<open>now\<close> is \<^verbatim>\<open>Date.now()\<close>.\<close>

definition newJob :: "string \<Rightarrow> string \<Rightarrow> string \<Rightarrow> bool \<Rightarrow> int \<Rightarrow> Job" where
  "newJob i name path vp now =
     \<lparr>id' = i, originalName = name, inputPath = path, outputPath = None, downloadUrl = None,
      status = Queued, progress = 0, currentStep = ''Na fila...'', steps = [], error = None,
      createdAt = now, completedAt = None, expiresAt = None, visualPerturb = vp\<rparr>"

text \<open>
  Every state of a job that an observer can see: as created, and then as
  \<^verbatim>\<open>processJob\<close> shows it.
\<close>

definition lifetime :: "env \<Rightarrow> Job \<Rightarrow> Job list" where
  "lifetime e job0 = job0 # observed (processJob e job0)"

section \<open>The single-stage module (server/jobQueue.ts, lines 96-186)\<close>

text \<open>
  The stdout handler of this module stores \<^verbatim>\<open>parsed.percent\<close> and
  \<^verbatim>\<open>parsed.message\<close> as they are (lines 121-126). A decoded line carries both here;
  without them the handler stores \<^verbatim>\<open>undefined\<close> in the job's \<^verbatim>\<open>progress: number\<close>
  and \<^verbatim>\<open>currentStep: string\<close>, values the \<^verbatim>\<open>Job\<close> interface does not have.
\<close>

record parsed_single =
  s_step :: "string option"
  s_percent :: int
  s_message :: string
  s_error :: "string option"

text \<open>
  One run of the single stage. Node may deliver \<^verbatim>\<open>close\<close> after \<^verbatim>\<open>error\<close>:
  \<open>close_after_error\<close> is the code of that \<^verbatim>\<open>close\<close>, if there is one.
\<close>

record env_single =
  run_events :: "(parsed_single \<times> int) list"
  run_ending :: proc_end
  close_after_error :: "int option"
  run_files_after :: "string set"
  run_upload :: upload_run

text \<open>Lines 111-132.\<close>

definition stdoutLine_single :: "int \<Rightarrow> parsed_single \<Rightarrow> Job \<Rightarrow> Job" where
  "stdoutLine_single now p job =
     (if truthy (s_error p) then
        job\<lparr>status := Error, error := s_error p, currentStep := ''Erro no processamento''\<rparr>
      else if truthy (s_step p) then
        job\<lparr>progress := s_percent p,
            currentStep := s_message p,
            steps := steps job @
              [\<lparr>step = nullish (s_step p) [], percent = s_percent p,
                message = s_message p, timestamp = now\<rparr>]\<rparr>
      else job)"

definition s3Key_single :: "Job \<Rightarrow> string" where
  "s3Key_single job =
     ''processed/'' @ id' job @ ''/'' @ replace_mp4 (originalName job) [] @ ''_processed.mp4''"

definition exitMessage_single :: "int \<Rightarrow> string" where
  "exitMessage_single code = ''Processo encerrado com c'' @ o_acute @ ''digo '' @ show_int code"

text \<open>The \<^verbatim>\<open>close\<close> handler, lines 138-177.\<close>

definition onClose_single :: "upload_run \<Rightarrow> string set \<Rightarrow> int \<Rightarrow> Job \<Rightarrow> outcome" where
  "onClose_single u fs code job =
     (let outP = replace_mp4 (inputPath job) ''_processed.mp4''
      in if code = 0 \<and> outP \<in> fs then uploadArtifact u fs outP (s3Key_single job) job
         else
           \<lparr>observed = [stageFailed (exitMessage_single code) ''Erro no processamento'' job],
            files = unlinkIfExists fs (inputPath job),
            calls = []\<rparr>)"

text \<open>The \<^verbatim>\<open>error\<close> handler, lines 179-184.\<close>

definition onError_single :: "string \<Rightarrow> Job \<Rightarrow> Job" where
  "onError_single m job =
     job\<lparr>status := Error, error := Some (''Falha ao iniciar processamento: '' @ m),
         currentStep := ''Erro cr'' @ i_acute @ ''tico''\<rparr>"

definition processJob_single :: "env_single \<Rightarrow> Job \<Rightarrow> outcome" where
  "processJob_single e job0 =
     (let outP = replace_mp4 (inputPath job0) ''_processed.mp4'';
          job1 = job0\<lparr>status := Processing, currentStep := ''Iniciando processamento...'',
                     outputPath := Some outP\<rparr>;
          tr = feed stdoutLine_single (run_events e) job1;
          job2 = last (job1 # tr);
          call1 = RunPython audioScript [inputPath job1, outP]
      in case run_ending e of
           Close code \<Rightarrow>
             (let c = onClose_single (run_upload e) (run_files_after e) code job2
              in \<lparr>observed = job1 # tr @ observed c, files = files c, calls = call1 # calls c\<rparr>)
         | SpawnError m \<Rightarrow>
             (let job3 = onError_single m job2
              in case close_after_error e of
                   None \<Rightarrow>
                     \<lparr>observed = job1 # tr @ [job3], files = run_files_after e, calls = [call1]\<rparr>
                 | Some code \<Rightarrow>
                     (let c = onClose_single (run_upload e) (run_files_after e) code job3
                      in \<lparr>observed = job1 # tr @ job3 # observed c, files = files c,
                          calls = call1 # calls c\<rparr>)))"

definition finalJob_single :: "env_single \<Rightarrow> Job \<Rightarrow> Job" where
  "finalJob_single e job0 = last (observed (processJob_single e job0))"

definition lifetime_single :: "env_single \<Rightarrow> Job \<Rightarrow> Job list" where
  "lifetime_single e job0 = job0 # observed (processJob_single e job0)"

section \<open>The registry and the scheduler (part_002, lines 32-96)\<close>

text \<open>
  Job objects live in a heap; the registry \<^verbatim>\<open>jobs\<close> maps an id to the address of
  its object, so that a job deleted or replaced while the worker holds it stays
  distinct from the one the registry shows. \<open>immediates\<close> counts the
  \<^verbatim>\<open>setImmediate(runWorker)\<close> callbacks not yet run; \<open>awaiting\<close> lists the calls of
  \<^verbatim>\<open>runWorker\<close> suspended at \<^verbatim>\<open>await processJob(job)\<close>, each by the address of its
  job. \<open>history\<close> records what happened to the queue, oldest first; no operation
  reads it.
\<close>

datatype action = Enqueued string | Skipped string | Started string nat | Finished nat

record sched =
  heap :: "nat \<rightharpoonup> Job"
  nextAddr :: nat
  jobs :: "string \<rightharpoonup> nat"
  jobQueue :: "string list"
  isWorkerRunning :: bool
  immediates :: nat
  awaiting :: "nat list"
  disk :: "string set"
  history :: "action list"

definition initial :: "string set \<Rightarrow> sched" where
  "initial d =
     \<lparr>heap = Map.empty, nextAddr = 0, jobs = Map.empty, jobQueue = [], isWorkerRunning = False,
      immediates = 0, awaiting = [], disk = d, history = []\<rparr>"

text \<open>Lines 77-81.\<close>

definition scheduleWorker :: "sched \<Rightarrow> sched" where
  "scheduleWorker s = (if \<not> isWorkerRunning s then s\<lparr>immediates := Suc (immediates s)\<rparr> else s)"

text \<open>Lines 37-53; \<open>now\<close> is \<^verbatim>\<open>Date.now()\<close>.\<close>

definition createJob :: "string \<Rightarrow> string \<Rightarrow> string \<Rightarrow> bool \<Rightarrow> int \<Rightarrow> sched \<Rightarrow> Job \<times> sched" where
  "createJob i name path vp now s =
     (let job = newJob i name path vp now;
          a = nextAddr s
      in (job,
          scheduleWorker
            (s\<lparr>heap := (heap s)(a \<mapsto> job), nextAddr := Suc a, jobs := (jobs s)(i \<mapsto> a),
               jobQueue := jobQueue s @ [i], history := history s @ [Enqueued i]\<rparr>)))"

text \<open>Lines 55-57.\<close>

definition getJob :: "string \<Rightarrow> sched \<Rightarrow> Job option" where
  "getJob i s = (case jobs s i of None \<Rightarrow> None | Some a \<Rightarrow> heap s a)"


text \<open>
  The loop of lines 87-95, run on the queue \<open>q\<close> until it suspends at
  \<^verbatim>\<open>await processJob(job)\<close> (the job is then in the state in which \<^verbatim>\<open>processJob\<close>
  leaves it at its first \<^verbatim>\<open>await\<close>) or finds the queue empty and clears the flag.
\<close>

fun whileLoop :: "string list \<Rightarrow> sched \<Rightarrow> sched" where
  "whileLoop [] s = s\<lparr>jobQueue := [], isWorkerRunning := False\<rparr>"
| "whileLoop (i # q) s =
     (case jobs s i of
        None \<Rightarrow> whileLoop q (s\<lparr>history := history s @ [Skipped i]\<rparr>)
      | Some a \<Rightarrow>
          (case heap s a of
             None \<Rightarrow> whileLoop q (s\<lparr>history := history s @ [Skipped i]\<rparr>)
           | Some job \<Rightarrow>
               if status job \<noteq> Queued then whileLoop q (s\<lparr>history := history s @ [Skipped i]\<rparr>)
               else s\<lparr>jobQueue := q, heap := (heap s)(a \<mapsto> startJob job),
                      awaiting := awaiting s @ [a],
                      history := history s @ [Started i a]\<rparr>))"

text \<open>Lines 83-86: the callback that \<^verbatim>\<open>setImmediate\<close> runs.\<close>

definition runWorker :: "sched \<Rightarrow> sched" where
  "runWorker s =
     (if isWorkerRunning s then s else whileLoop (jobQueue s) (s\<lparr>isWorkerRunning := True\<rparr>))"

text \<open>
  The promise of \<^verbatim>\<open>processJob\<close> settles for the call suspended on the job at address
  \<open>a\<close>: the job is as the pipeline left it, the files are as it left them, and the
  loop goes on. Between the start and this moment the job passes through the states
  that \<open>observed\<close> lists; the scheduler does not look at them.
\<close>

definition resume :: "env \<Rightarrow> nat \<Rightarrow> sched \<Rightarrow> sched" where
  "resume e a s =
     (case heap s a of
        None \<Rightarrow> s
      | Some job \<Rightarrow>
          whileLoop (jobQueue s)
            (s\<lparr>heap := (heap s)(a \<mapsto> finalJob e job), disk := files (processJob e job),
               awaiting := remove1 a (awaiting s), history := history s @ [Finished a]\<rparr>))"





fun started :: "action list \<Rightarrow> string list" where
  "started [] = []"
| "started (Started i a # h) = i # started h"
| "started (x # h) = started h"


section \<open>Notions used in the statements\<close>

text \<open>A progress line: no \<open>error\<close>, a non-empty \<open>step\<close>.\<close>

definition progressLine :: "parsed \<Rightarrow> bool" where
  "progressLine p = (\<not> truthy (p_error p) \<and> truthy (p_step p))"





text \<open>The percents that the progress lines of the mandatory stage carry, in order.\<close>

fun reported :: "(parsed \<times> int) list \<Rightarrow> int list" where
  "reported [] = []"
| "reported ((p, now) # es) =
     (if progressLine p then (case p_percent p of None \<Rightarrow> reported es | Some n \<Rightarrow> n # reported es)
      else reported es)"

text \<open>
  The native percents of the progress lines of the optional stage, in order, a
  missing one counted as 0 (line 174).
\<close>

fun natives :: "(parsed \<times> int) list \<Rightarrow> int list" where
  "natives [] = []"
| "natives ((p, now) # es) =
     (if progressLine p then nullish (p_percent p) 0 # natives es else natives es)"

text \<open>The job when the mandatory stage has ended.\<close>

definition afterAudio :: "env \<Rightarrow> Job \<Rightarrow> Job" where
  "afterAudio e job0 = last (startJob job0 # feed addStep (events (audio e)) (startJob job0))"

text \<open>The job when the optional stage is started (line 165) and when it has ended.\<close>

definition beforeVisual :: "env \<Rightarrow> Job \<Rightarrow> Job" where
  "beforeVisual e job0 =
     (afterAudio e job0)\<lparr>currentStep := ''Aplicando camada visual adversarial...''\<rparr>"

definition afterVisual :: "env \<Rightarrow> Job \<Rightarrow> Job" where
  "afterVisual e job0 =
     last (beforeVisual e job0 # feed visualStep (events (visual e)) (beforeVisual e job0))"

text \<open>The files after line 183 has removed the intermediate output.\<close>

definition visualFiles :: "env \<Rightarrow> Job \<Rightarrow> string set" where
  "visualFiles e job0 = unlinkIfExists (files_after (visual e)) (audioOutputPath job0)"

text \<open>The conditions of lines 153 and 185.\<close>

definition audioFailed :: "env \<Rightarrow> Job \<Rightarrow> bool" where
  "audioFailed e job0 =
     (exitCode (ending (audio e)) \<noteq> 0 \<or> audioOutputPath job0 \<notin> files_after (audio e))"

definition visualFailed :: "env \<Rightarrow> Job \<Rightarrow> bool" where
  "visualFailed e job0 =
     (exitCode (ending (visual e)) \<noteq> 0 \<or> visualOutputPath job0 \<notin> visualFiles e job0)"

text \<open>A job that has not completed: none of the three completion fields is set.\<close>

definition unfinished :: "Job \<Rightarrow> bool" where
  "unfinished j =
     (status j \<noteq> Completed \<and> completedAt j = None \<and> expiresAt j = None \<and> downloadUrl j = None)"

text \<open>
  A job completed by the upload \<open>u\<close>: the url is the one the storage returned, and the
  two time stamps come from the two clock readings of lines 217 and 218.
\<close>

definition finishedBy :: "upload_run \<Rightarrow> Job \<Rightarrow> bool" where
  "finishedBy u j =
     (status j = Completed \<and> completedAt j = Some (completed_now u) \<and>
      expiresAt j = Some (expires_now u + 24 * 60 * 60 * 1000) \<and>
      (case put u of PutOk url \<Rightarrow> downloadUrl j = Some url | ReadFail x \<Rightarrow> False | PutFail x \<Rightarrow> False))"

text \<open>
  A sequence of observed states in which only the last one may be completed, and then
  by the upload \<open>u\<close>.
\<close>

definition completesLast :: "upload_run \<Rightarrow> Job list \<Rightarrow> bool" where
  "completesLast u tr =
     (tr \<noteq> [] \<and> list_all unfinished (butlast tr) \<and> (unfinished (last tr) \<or> finishedBy u (last tr)))"

text \<open>
  The percents a stage reports never go down and lie between 0 and \<open>cap\<close>
  (mandatory stage), or between 0 and 100 (native percents of the optional stage).
\<close>

definition risingReports :: "int \<Rightarrow> (parsed \<times> int) list \<Rightarrow> bool" where
  "risingReports cap es =
     (sorted (reported es) \<and> list_all (\<lambda>n. 0 \<le> n \<and> n \<le> cap) (reported es))"

definition risingNatives :: "(parsed \<times> int) list \<Rightarrow> bool" where
  "risingNatives es =
     (sorted (natives es) \<and> list_all (\<lambda>n. 0 \<le> n \<and> n \<le> 100) (natives es))"


section \<open>Sample runs\<close>

text \<open>Concrete lines, jobs and runs on which the statements below are evaluated.\<close>

definition stepLine :: "string \<Rightarrow> int \<Rightarrow> string \<Rightarrow> parsed" where
  "stepLine s n m = \<lparr>p_step = Some s, p_percent = Some n, p_message = Some m, p_error = None\<rparr>"

definition bareStepLine :: "string \<Rightarrow> parsed" where
  "bareStepLine s = \<lparr>p_step = Some s, p_percent = None, p_message = None, p_error = None\<rparr>"

definition errorLine :: "string \<Rightarrow> parsed" where
  "errorLine m = \<lparr>p_step = None, p_percent = None, p_message = None, p_error = Some m\<rparr>"

definition sampleJob :: "bool \<Rightarrow> Job" where
  "sampleJob vp = newJob ''j1'' ''clip.mp4'' ''/up/j1.mp4'' vp 1000"

text \<open>
  Both stages report progress and exit with code 0, their outputs exist, and the
  upload succeeds; the clock reads 2000 and then 2001 in lines 217 and 218.
\<close>

definition sampleEnv :: env where
  "sampleEnv =
     \<lparr>audio = \<lparr>events = [(stepLine ''extract'' 50 ''Extraindo'', 1010)], ending = Close 0,
                files_after = {''/up/j1.mp4'', ''/up/j1_processed.mp4''}\<rparr>,
      visual = \<lparr>events = [(stepLine ''frames'' 40 ''Quadros'', 1020)], ending = Close 0,
                 files_after = {''/up/j1.mp4'', ''/up/j1_processed.mp4'', ''/up/j1_final.mp4''}\<rparr>,
      upload = \<lparr>put = PutOk ''https://store/j1'',
                 files_at_put = {''/up/j1.mp4'', ''/up/j1_processed.mp4'', ''/up/j1_final.mp4''},
                 completed_now = 2000, expires_now = 2001\<rparr>\<rparr>"

text \<open>The mandatory stage of \<open>sampleEnv\<close> with other lines, and with another ending.\<close>

definition withAudioLines :: "(parsed \<times> int) list \<Rightarrow> env \<Rightarrow> env" where
  "withAudioLines es e = e\<lparr>audio := (audio e)\<lparr>events := es\<rparr>\<rparr>"

definition withAudioEnding :: "proc_end \<Rightarrow> string set \<Rightarrow> env \<Rightarrow> env" where
  "withAudioEnding x fs e = e\<lparr>audio := (audio e)\<lparr>ending := x, files_after := fs\<rparr>\<rparr>"

definition withVisualEnding :: "proc_end \<Rightarrow> string set \<Rightarrow> env \<Rightarrow> env" where
  "withVisualEnding x fs e = e\<lparr>visual := (visual e)\<lparr>ending := x, files_after := fs\<rparr>\<rparr>"

definition withUpload :: "put_result \<Rightarrow> env \<Rightarrow> env" where
  "withUpload r e = e\<lparr>upload := (upload e)\<lparr>put := r\<rparr>\<rparr>"

text \<open>A run of the single-stage module: one progress line, exit code 0, upload succeeds.\<close>

definition sampleEnv_single :: env_single where
  "sampleEnv_single =
     \<lparr>run_events = [(\<lparr>s_step = Some ''extract'', s_percent = 50, s_message = ''Extraindo'',
                       s_error = None\<rparr>, 1010)],
      run_ending = Close 0, close_after_error = None,
      run_files_after = {''/up/j1.mp4'', ''/up/j1_processed.mp4''},
      run_upload = \<lparr>put = PutOk ''https://store/j1'',
                     files_at_put = {''/up/j1.mp4'', ''/up/j1_processed.mp4''},
                     completed_now = 2000, expires_now = 2001\<rparr>\<rparr>"

text \<open>
  Two jobs are created; the first callback starts the first job, the second callback
  finds the flag set; the first pipeline settles and the second job is started; the
  second pipeline settles.
\<close>

definition sched1 :: sched where
  "sched1 = snd (createJob ''j1'' ''clip.mp4'' ''/up/j1.mp4'' False 1000 (initial {''/up/j1.mp4''}))"

definition sched2 :: sched where
  "sched2 = snd (createJob ''j2'' ''film.mp4'' ''/up/j2.mp4'' False 1001 sched1)"

definition sched3 :: sched where
  "sched3 = runWorker (sched2\<lparr>immediates := immediates sched2 - 1\<rparr>)"

definition sched4 :: sched where
  "sched4 = runWorker (sched3\<lparr>immediates := immediates sched3 - 1\<rparr>)"

definition sched5 :: sched where
  "sched5 = resume (withAudioEnding (Close 2) {''/up/j1.mp4''} sampleEnv) 0 sched4"

definition sched6 :: sched where
  "sched6 = resume (withAudioEnding (Close 2) {''/up/j2.mp4''} sampleEnv) 1 sched5"

section \<open>Progress remapping of the optional stage\<close>

lemma round_045: "round ((of_int n :: rat) * 0.45) = (9 * n + 10) div 20"
proof -
  have "(of_int n :: rat) * 0.45 + 1 / 2 = of_int (9 * n + 10) / of_int 20"
    by simp
  then show ?thesis
    unfolding round_def by (simp only: floor_divide_of_int_eq)
qed

lemma remapped_div: "remapped n = 50 + (9 * n + 10) div 20"
  by (simp only: remapped_def round_045)



section \<open>The four courses of the pipeline\<close>

lemma addStep_frame [simp]:
  "inputPath (addStep now p j) = inputPath j"
  "visualPerturb (addStep now p j) = visualPerturb j"
  "id' (addStep now p j) = id' j"
  "originalName (addStep now p j) = originalName j"
  "completedAt (addStep now p j) = completedAt j"
  "expiresAt (addStep now p j) = expiresAt j"
  "downloadUrl (addStep now p j) = downloadUrl j"
  by (simp_all add: addStep_def)

lemma visualStep_frame [simp]:
  "inputPath (visualStep now p j) = inputPath j"
  "visualPerturb (visualStep now p j) = visualPerturb j"
  "id' (visualStep now p j) = id' j"
  "originalName (visualStep now p j) = originalName j"
  "completedAt (visualStep now p j) = completedAt j"
  "expiresAt (visualStep now p j) = expiresAt j"
  "downloadUrl (visualStep now p j) = downloadUrl j"
  by (simp_all add: visualStep_def)

lemma feed_invariant:
  assumes "P job" and "\<And>p now j. (p, now) \<in> set es \<Longrightarrow> P j \<Longrightarrow> P (h now p j)"
  shows "list_all P (job # feed h es job)"
  using assms
proof (induction es arbitrary: job)
  case Nil
  then show ?case by simp
next
  case (Cons a es)
  obtain p now where a: "a = (p, now)" by (cases a)
  have "P (h now p job)" using Cons.prems a by simp
  then have "list_all P (h now p job # feed h es (h now p job))"
    using Cons.IH Cons.prems(2) by simp
  then show ?case using Cons.prems(1) a by simp
qed

lemma last_in_list_all: "list_all P (x # xs) \<Longrightarrow> P (last (x # xs))"
  by (metis last_in_set list.discI list_all_iff)

lemma feed_keeps:
  assumes "\<And>now p j. f (h now p j) = f j"
  shows "list_all (\<lambda>j. f j = f job) (job # feed h es job)"
  by (rule feed_invariant) (simp_all add: assms)

lemma afterAudio_frame [simp]:
  "inputPath (afterAudio e job0) = inputPath job0"
  "visualPerturb (afterAudio e job0) = visualPerturb job0"
  "id' (afterAudio e job0) = id' job0"
  "originalName (afterAudio e job0) = originalName job0"
proof -
  have s: "inputPath (startJob job0) = inputPath job0" "visualPerturb (startJob job0) = visualPerturb job0"
    "id' (startJob job0) = id' job0" "originalName (startJob job0) = originalName job0"
    by (simp_all add: startJob_def)
  show "inputPath (afterAudio e job0) = inputPath job0"
    unfolding afterAudio_def
    using last_in_list_all [OF feed_keeps [of inputPath addStep "startJob job0" "events (audio e)"]] s
    by simp
  show "visualPerturb (afterAudio e job0) = visualPerturb job0"
    unfolding afterAudio_def
    using last_in_list_all [OF feed_keeps [of visualPerturb addStep "startJob job0" "events (audio e)"]] s
    by simp
  show "id' (afterAudio e job0) = id' job0"
    unfolding afterAudio_def
    using last_in_list_all [OF feed_keeps [of id' addStep "startJob job0" "events (audio e)"]] s
    by simp
  show "originalName (afterAudio e job0) = originalName job0"
    unfolding afterAudio_def
    using last_in_list_all [OF feed_keeps [of originalName addStep "startJob job0" "events (audio e)"]] s
    by simp
qed

lemma beforeVisual_frame [simp]:
  "inputPath (beforeVisual e job0) = inputPath job0"
  "visualPerturb (beforeVisual e job0) = visualPerturb job0"
  "id' (beforeVisual e job0) = id' job0"
  "originalName (beforeVisual e job0) = originalName job0"
  by (simp_all add: beforeVisual_def)

lemma afterVisual_frame [simp]:
  "inputPath (afterVisual e job0) = inputPath job0"
  "visualPerturb (afterVisual e job0) = visualPerturb job0"
  "id' (afterVisual e job0) = id' job0"
  "originalName (afterVisual e job0) = originalName job0"
proof -
  show "inputPath (afterVisual e job0) = inputPath job0"
    unfolding afterVisual_def
    using last_in_list_all [OF feed_keeps [of inputPath visualStep "beforeVisual e job0" "events (visual e)"]]
    by simp
  show "visualPerturb (afterVisual e job0) = visualPerturb job0"
    unfolding afterVisual_def
    using last_in_list_all [OF feed_keeps [of visualPerturb visualStep "beforeVisual e job0" "events (visual e)"]]
    by simp
  show "id' (afterVisual e job0) = id' job0"
    unfolding afterVisual_def
    using last_in_list_all [OF feed_keeps [of id' visualStep "beforeVisual e job0" "events (visual e)"]]
    by simp
  show "originalName (afterVisual e job0) = originalName job0"
    unfolding afterVisual_def
    using last_in_list_all [OF feed_keeps [of originalName visualStep "beforeVisual e job0" "events (visual e)"]]
    by simp
qed

lemma processJob_audio_failed:
  assumes "audioFailed e job0"
  shows "processJob e job0 =
     \<lparr>observed = startJob job0 # feed addStep (events (audio e)) (startJob job0) @
        [stageFailed (audioFailedMessage (exitCode (ending (audio e))))
           (''Erro no processamento de '' @ a_acute @ ''udio'') (afterAudio e job0)],
      files = unlinkIfExists (files_after (audio e)) (inputPath job0),
      calls = [RunPython audioScript [inputPath job0, audioOutputPath job0]]\<rparr>"
proof -
  have "inputPath (afterAudio e job0) = inputPath job0" by simp
  then show ?thesis
    using assms
    unfolding processJob_def runPythonScript_def Let_def split_def fst_conv snd_conv afterAudio_def audioFailed_def
    by (simp add: startJob_def del: last.simps)
qed

lemma processJob_single_stage:
  assumes "\<not> audioFailed e job0" and "\<not> visualPerturb job0"
  shows "processJob e job0 =
     \<lparr>observed = startJob job0 # feed addStep (events (audio e)) (startJob job0) @
        observed (doUpload (upload e) (files_after (audio e)) (audioOutputPath job0) (afterAudio e job0)),
      files = files (doUpload (upload e) (files_after (audio e)) (audioOutputPath job0) (afterAudio e job0)),
      calls = RunPython audioScript [inputPath job0, audioOutputPath job0] #
        calls (doUpload (upload e) (files_after (audio e)) (audioOutputPath job0) (afterAudio e job0))\<rparr>"
proof -
  have "visualPerturb (afterAudio e job0) = visualPerturb job0" by simp
  then show ?thesis
    using assms
    unfolding processJob_def runPythonScript_def Let_def split_def fst_conv snd_conv afterAudio_def audioFailed_def
    by (simp add: startJob_def del: last.simps)
qed

lemma processJob_visual_failed:
  assumes "\<not> audioFailed e job0" and "visualPerturb job0" and "visualFailed e job0"
  shows "processJob e job0 =
     \<lparr>observed = startJob job0 # feed addStep (events (audio e)) (startJob job0) @
        beforeVisual e job0 # feed visualStep (events (visual e)) (beforeVisual e job0) @
        [stageFailed (visualFailedMessage (exitCode (ending (visual e))))
           (''Erro na perturba'' @ c_cedilla @ a_tilde @ ''o visual'') (afterVisual e job0)],
      files = unlinkIfExists (visualFiles e job0) (inputPath job0),
      calls = [RunPython audioScript [inputPath job0, audioOutputPath job0],
               RunPython visualScript [audioOutputPath job0, visualOutputPath job0, ''3.0'']]\<rparr>"
proof -
  have "visualPerturb (afterAudio e job0) = visualPerturb job0"
    "inputPath (afterVisual e job0) = inputPath job0" by simp_all
  then show ?thesis
    using assms
    unfolding processJob_def runPythonScript_def Let_def split_def fst_conv snd_conv afterAudio_def
      audioFailed_def visualFailed_def visualFiles_def afterVisual_def beforeVisual_def
    by (simp add: startJob_def del: last.simps)
qed

lemma processJob_two_stage:
  assumes "\<not> audioFailed e job0" and "visualPerturb job0" and "\<not> visualFailed e job0"
  shows "processJob e job0 =
     \<lparr>observed = startJob job0 # feed addStep (events (audio e)) (startJob job0) @
        beforeVisual e job0 # feed visualStep (events (visual e)) (beforeVisual e job0) @
        observed (doUpload (upload e) (visualFiles e job0) (visualOutputPath job0) (afterVisual e job0)),
      files = files (doUpload (upload e) (visualFiles e job0) (visualOutputPath job0) (afterVisual e job0)),
      calls = [RunPython audioScript [inputPath job0, audioOutputPath job0],
               RunPython visualScript [audioOutputPath job0, visualOutputPath job0, ''3.0'']] @
        calls (doUpload (upload e) (visualFiles e job0) (visualOutputPath job0) (afterVisual e job0))\<rparr>"
proof -
  have "visualPerturb (afterAudio e job0) = visualPerturb job0" by simp
  then show ?thesis
    using assms
    unfolding processJob_def runPythonScript_def Let_def split_def fst_conv snd_conv afterAudio_def
      audioFailed_def visualFailed_def visualFiles_def afterVisual_def beforeVisual_def
    by (simp add: startJob_def del: last.simps)
qed

section \<open>Progress stays between 0 and 100 when the stages report such percents\<close>

lemma remapped_mono: "m \<le> n \<Longrightarrow> remapped m \<le> remapped n"
  unfolding remapped_div by (simp add: zdiv_mono1)

lemma remapped_bounds: "0 \<le> n \<Longrightarrow> n \<le> 100 \<Longrightarrow> 50 \<le> remapped n \<and> remapped n \<le> 95"
proof -
  assume "0 \<le> n" and "n \<le> 100"
  have "remapped 0 \<le> remapped n" using \<open>0 \<le> n\<close> by (rule remapped_mono)
  moreover have "remapped n \<le> remapped 100" using \<open>n \<le> 100\<close> by (rule remapped_mono)
  moreover have "remapped 0 = 50" "remapped 100 = 95" by (simp_all add: remapped_div)
  ultimately show ?thesis by simp
qed














lemmas sample_defs = sampleEnv_def sampleJob_def stepLine_def bareStepLine_def errorLine_def
  withAudioLines_def withAudioEnding_def withVisualEnding_def withUpload_def
  sampleEnv_single_def newJob_def

lemmas run_defs = lifetime_def lifetime_single_def finalJob_def finalJob_single_def processJob_def processJob_single_def
  runPythonScript_def exitCode_def startJob_def audioOutputPath_def visualOutputPath_def
  replace_mp4_def ends_mp4_def addStep_def visualStep_def stdoutLine_single_def truthy_def
  nullish_def unlinkIfExists_def tryUnlink_def unlinkSync_def doUpload_def uploadArtifact_def
  markCompleted_def uploadFailed_def stageFailed_def onClose_single_def onError_single_def
  remapped_div Let_def



section \<open>Lines without percent or message\<close>

text \<open>
  C10, as amended. A line with a non-empty \<open>step\<close> and no \<open>error\<close> always appends
  a record with that step. In the mandatory stage, a line without \<open>percent\<close> leaves
  \<open>progress\<close> as it was and is recorded with percent 0, and a line without
  \<open>message\<close> leaves \<open>currentStep\<close> as it was and is recorded with the empty
  message. In the optional stage the same holds for \<open>message\<close>, but a line without
  \<open>percent\<close> counts as native 0: it sets \<open>progress\<close> to 50 and is recorded with
  percent 50.
\<close>

theorem C10_lines_without_percent_or_message:
  assumes "p_step p = Some s" and "s \<noteq> []" and "\<not> truthy (p_error p)"
  shows "steps (addStep now p job) =
           steps job @ [\<lparr>step = s, percent = nullish (p_percent p) 0,
                          message = nullish (p_message p) [], timestamp = now\<rparr>] \<and>
         (p_percent p = None \<longrightarrow>
            progress (addStep now p job) = progress job \<and>
            percent (last (steps (addStep now p job))) = 0 \<and>
            progress (visualStep now p job) = 50 \<and>
            percent (last (steps (visualStep now p job))) = 50) \<and>
         (p_message p = None \<longrightarrow>
            currentStep (addStep now p job) = currentStep job \<and>
            message (last (steps (addStep now p job))) = [] \<and>
            currentStep (visualStep now p job) = currentStep job \<and>
            message (last (steps (visualStep now p job))) = [])"
proof -
  have "remapped 0 = 50" by (simp add: remapped_div)
  then show ?thesis
    using assms by (simp add: visualStep_def addStep_def truthy_def nullish_def)
qed

text \<open>A line that carries only a step, handled in a job whose progress is 30.\<close>

theorem C10_lines_without_percent_or_message_witness:
  "progress (addStep 1010 (bareStepLine ''extract'') ((sampleJob True)\<lparr>progress := 30\<rparr>)) = 30 \<and>
   map percent (steps (addStep 1010 (bareStepLine ''extract'') ((sampleJob True)\<lparr>progress := 30\<rparr>))) = [0] \<and>
   currentStep (addStep 1010 (bareStepLine ''extract'') ((sampleJob True)\<lparr>progress := 30\<rparr>)) = ''Na fila...''"
  using C10_lines_without_percent_or_message
    [of "bareStepLine ''extract''" "''extract''" 1010 "(sampleJob True)\<lparr>progress := 30\<rparr>"]
  by (simp add: bareStepLine_def truthy_def sampleJob_def newJob_def nullish_def)

text \<open>
  C10 as stated fails for the optional stage: there the same line moves the progress
  from 30 to 50 and is recorded with percent 50.
\<close>

theorem C10_optional_stage_line_without_percent:
  "progress (visualStep 1020 (bareStepLine ''frames'') ((sampleJob True)\<lparr>progress := 30\<rparr>)) = 50 \<and>
   map percent (steps (visualStep 1020 (bareStepLine ''frames'') ((sampleJob True)\<lparr>progress := 30\<rparr>))) = [50] \<and>
   \<not> (progress (visualStep 1020 (bareStepLine ''frames'') ((sampleJob True)\<lparr>progress := 30\<rparr>)) =
        progress ((sampleJob True)\<lparr>progress := 30\<rparr>))"
  by (simp add: bareStepLine_def truthy_def sampleJob_def newJob_def nullish_def visualStep_def
      addStep_def remapped_div)

section \<open>Failure of the mandatory stage\<close>




lemma stageFailed_status: "status (stageFailed m l j) = Error"
  by (simp add: stageFailed_def)




section \<open>Failure to spawn a stage\<close>

text \<open>
  C9, as amended. In the two-stage module the stage runner resolves with 1 when the
  process cannot be spawned, and \<^verbatim>\<open>processJob\<close> then does exactly what it does when
  the stage exits with code 1, for the mandatory and for the optional stage. The
  single-stage module has no stage runner: its own \<^verbatim>\<open>error\<close> handler sets status
  \<open>error\<close>, the message \<^verbatim>\<open>Falha ao iniciar processamento: ...\<close> with the cause, and
  the step \<^verbatim>\<open>Erro critico\<close> (with its accent), also over an error set before; a \<^verbatim>\<open>close\<close> with a
  non-zero code that follows changes none of the three.
\<close>

theorem C9_spawn_failure:
  "exitCode (SpawnError m) = 1 \<and>
   processJob (e\<lparr>audio := (audio e)\<lparr>ending := SpawnError m\<rparr>\<rparr>) job0 =
     processJob (e\<lparr>audio := (audio e)\<lparr>ending := Close 1\<rparr>\<rparr>) job0 \<and>
   processJob (e\<lparr>visual := (visual e)\<lparr>ending := SpawnError m\<rparr>\<rparr>) job0 =
     processJob (e\<lparr>visual := (visual e)\<lparr>ending := Close 1\<rparr>\<rparr>) job0 \<and>
   (code \<noteq> Some 0 \<longrightarrow>
      status (finalJob_single (e1\<lparr>run_ending := SpawnError m, close_after_error := code\<rparr>) job0) = Error \<and>
      error (finalJob_single (e1\<lparr>run_ending := SpawnError m, close_after_error := code\<rparr>) job0) =
        Some (''Falha ao iniciar processamento: '' @ m) \<and>
      currentStep (finalJob_single (e1\<lparr>run_ending := SpawnError m, close_after_error := code\<rparr>) job0) =
        ''Erro cr'' @ i_acute @ ''tico'')"
proof -
  have "exitCode (SpawnError m) = 1"
    by (simp add: exitCode_def)
  moreover have "processJob (e\<lparr>audio := (audio e)\<lparr>ending := SpawnError m\<rparr>\<rparr>) job0 =
     processJob (e\<lparr>audio := (audio e)\<lparr>ending := Close 1\<rparr>\<rparr>) job0"
    by (simp add: processJob_def runPythonScript_def Let_def split_def exitCode_def)
  moreover have "processJob (e\<lparr>visual := (visual e)\<lparr>ending := SpawnError m\<rparr>\<rparr>) job0 =
     processJob (e\<lparr>visual := (visual e)\<lparr>ending := Close 1\<rparr>\<rparr>) job0"
    by (simp add: processJob_def runPythonScript_def Let_def split_def exitCode_def)
  moreover have "code \<noteq> Some 0 \<longrightarrow>
      status (finalJob_single (e1\<lparr>run_ending := SpawnError m, close_after_error := code\<rparr>) job0) = Error \<and>
      error (finalJob_single (e1\<lparr>run_ending := SpawnError m, close_after_error := code\<rparr>) job0) =
        Some (''Falha ao iniciar processamento: '' @ m) \<and>
      currentStep (finalJob_single (e1\<lparr>run_ending := SpawnError m, close_after_error := code\<rparr>) job0) =
        ''Erro cr'' @ i_acute @ ''tico''"
    by (cases code)
      (simp_all add: finalJob_single_def processJob_single_def Let_def onError_single_def
        onClose_single_def stageFailed_def)
  ultimately show ?thesis by blast
qed

text \<open>The single stage cannot be spawned, and no \<^verbatim>\<open>close\<close> follows.\<close>

theorem C9_spawn_failure_witness:
  "status (finalJob_single
     (sampleEnv_single\<lparr>run_ending := SpawnError ''spawn python3.11 ENOENT'', close_after_error := None\<rparr>)
     (sampleJob False)) = Error"
  using C9_spawn_failure [of "''spawn python3.11 ENOENT''" sampleEnv "sampleJob False" None
      sampleEnv_single]
  by simp

text \<open>
  C9 as stated fails in the single-stage module: a spawn failure and an exit with
  code 1 leave different messages and different steps.
\<close>

theorem C9_single_stage_spawn_failure_differs:
  "error (finalJob_single
     (sampleEnv_single\<lparr>run_events := [], run_ending := SpawnError ''spawn python3.11 ENOENT'',
        run_files_after := {''/up/j1.mp4''}\<rparr>) (sampleJob False)) =
     Some ''Falha ao iniciar processamento: spawn python3.11 ENOENT'' \<and>
   error (finalJob_single
     (sampleEnv_single\<lparr>run_events := [], run_ending := Close 1,
        run_files_after := {''/up/j1.mp4''}\<rparr>) (sampleJob False)) =
     Some (''Processo encerrado com c'' @ o_acute @ ''digo 1'') \<and>
   currentStep (finalJob_single
     (sampleEnv_single\<lparr>run_events := [], run_ending := SpawnError ''spawn python3.11 ENOENT'',
        run_files_after := {''/up/j1.mp4''}\<rparr>) (sampleJob False)) = ''Erro cr'' @ i_acute @ ''tico'' \<and>
   currentStep (finalJob_single
     (sampleEnv_single\<lparr>run_events := [], run_ending := Close 1,
        run_files_after := {''/up/j1.mp4''}\<rparr>) (sampleJob False)) = ''Erro no processamento'' \<and>
   finalJob_single
     (sampleEnv_single\<lparr>run_events := [], run_ending := SpawnError ''spawn python3.11 ENOENT'',
        run_files_after := {''/up/j1.mp4''}\<rparr>) (sampleJob False) \<noteq>
   finalJob_single
     (sampleEnv_single\<lparr>run_events := [], run_ending := Close 1,
        run_files_after := {''/up/j1.mp4''}\<rparr>) (sampleJob False)"
proof -
  have s: "show_int 1 = ''1''"
    by (simp add: show_int_def show_nat.simps)
  show ?thesis
    by (simp add: sample_defs run_defs exitMessage_single_def s)
qed

section \<open>The completion fields\<close>

lemma completesLast_append:
  assumes "list_all unfinished xs" and "completesLast u ys"
  shows "completesLast u (xs @ ys)"
  using assms by (simp add: completesLast_def butlast_append)

lemma completesLast_single: "unfinished j \<Longrightarrow> completesLast u [j]"
  by (simp add: completesLast_def)

lemma unfinished_addStep: "unfinished j \<Longrightarrow> unfinished (addStep now p j)"
  by (simp add: unfinished_def addStep_def)

lemma unfinished_visualStep: "unfinished j \<Longrightarrow> unfinished (visualStep now p j)"
  by (simp add: visualStep_def unfinished_addStep)

lemma unfinished_stdoutLine_single: "unfinished j \<Longrightarrow> unfinished (stdoutLine_single now p j)"
  by (simp add: unfinished_def stdoutLine_single_def)

lemma unfinished_stageFailed: "unfinished j \<Longrightarrow> unfinished (stageFailed m l j)"
  by (simp add: unfinished_def stageFailed_def)

lemma unfinished_startJob: "unfinished j \<Longrightarrow> unfinished (startJob j)"
  by (simp add: unfinished_def startJob_def)

lemma feed_unfinished:
  assumes "unfinished j" and "\<And>now p k. unfinished k \<Longrightarrow> unfinished (h now p k)"
  shows "list_all unfinished (j # feed h es j)"
  by (rule feed_invariant) (simp_all add: assms)

lemma uploadArtifact_completesLast:
  assumes "unfinished j"
  shows "completesLast u (observed (uploadArtifact u fs path key j))"
  using assms
  by (cases "put u")
    (simp_all add: uploadArtifact_def completesLast_def unfinished_def finishedBy_def
      uploadFailed_def markCompleted_def)

lemma doUpload_completesLast:
  assumes "unfinished j"
  shows "completesLast u (observed (doUpload u fs path j))"
  using assms uploadArtifact_completesLast [OF assms]
  by (simp add: doUpload_def completesLast_single unfinished_stageFailed)

lemma processJob_completesLast:
  assumes "unfinished job0"
  shows "completesLast (upload e) (observed (processJob e job0))"
proof -
  have a1: "list_all unfinished (startJob job0 # feed addStep (events (audio e)) (startJob job0))"
    using assms by (intro feed_unfinished unfinished_startJob unfinished_addStep)
  then have l1: "unfinished (afterAudio e job0)"
    unfolding afterAudio_def by (rule last_in_list_all)
  then have j3: "unfinished (beforeVisual e job0)" by (simp add: beforeVisual_def unfinished_def)
  have a2: "list_all unfinished (beforeVisual e job0 # feed visualStep (events (visual e)) (beforeVisual e job0))"
    using j3 by (intro feed_unfinished unfinished_visualStep)
  then have l2: "unfinished (afterVisual e job0)"
    unfolding afterVisual_def by (rule last_in_list_all)
  have a12: "list_all unfinished
      ((startJob job0 # feed addStep (events (audio e)) (startJob job0)) @
       (beforeVisual e job0 # feed visualStep (events (visual e)) (beforeVisual e job0)))"
    using a1 a2 by simp
  consider (a) "audioFailed e job0"
    | (b) "\<not> audioFailed e job0" "\<not> visualPerturb job0"
    | (c) "\<not> audioFailed e job0" "visualPerturb job0" "visualFailed e job0"
    | (d) "\<not> audioFailed e job0" "visualPerturb job0" "\<not> visualFailed e job0"
    by blast
  then show ?thesis
  proof cases
    case a
    show ?thesis
      using completesLast_append [OF a1 completesLast_single [OF unfinished_stageFailed [OF l1]]]
      by (simp add: processJob_audio_failed [OF a])
  next
    case b
    show ?thesis
      using completesLast_append [OF a1 doUpload_completesLast [OF l1]]
      by (simp add: processJob_single_stage [OF b])
  next
    case c
    show ?thesis
      using completesLast_append [OF a12 completesLast_single [OF unfinished_stageFailed [OF l2]]]
      by (simp add: processJob_visual_failed [OF c])
  next
    case d
    show ?thesis
      using completesLast_append [OF a12 doUpload_completesLast [OF l2]]
      by (simp add: processJob_two_stage [OF d])
  qed
qed

lemma onClose_single_completesLast:
  assumes "unfinished j"
  shows "completesLast u (observed (onClose_single u fs code j))"
  using assms uploadArtifact_completesLast [OF assms]
  by (simp add: onClose_single_def Let_def completesLast_single unfinished_stageFailed)

lemma processJob_single_completesLast:
  assumes "unfinished job0"
  shows "completesLast (run_upload e) (observed (processJob_single e job0))"
proof -
  define job1 where "job1 = job0\<lparr>status := Processing, currentStep := ''Iniciando processamento...'',
      outputPath := Some (replace_mp4 (inputPath job0) ''_processed.mp4'')\<rparr>"
  define tr where "tr = feed stdoutLine_single (run_events e) job1"
  have j1: "unfinished job1" using assms by (simp add: job1_def unfinished_def)
  have a1: "list_all unfinished (job1 # tr)"
    unfolding tr_def using j1 by (intro feed_unfinished unfinished_stdoutLine_single)
  then have l1: "unfinished (last (job1 # tr))" by (rule last_in_list_all)
  then have l2: "unfinished (onError_single m (last (job1 # tr)))" for m
    by (simp add: onError_single_def unfinished_def)
  have a2: "list_all unfinished ((job1 # tr) @ [onError_single m (last (job1 # tr))])" for m
    using a1 l2 by simp
  show ?thesis
  proof (cases "run_ending e")
    case (Close code)
    show ?thesis
      using completesLast_append [OF a1 onClose_single_completesLast [OF l1]]
      by (simp add: processJob_single_def Let_def Close job1_def tr_def del: last.simps)
  next
    case (SpawnError m)
    show ?thesis
    proof (cases "close_after_error e")
      case None
      show ?thesis
        using completesLast_append [OF a1 completesLast_single [OF l2]]
        by (simp add: processJob_single_def Let_def SpawnError None job1_def tr_def del: last.simps)
    next
      case (Some code)
      show ?thesis
        using completesLast_append [OF a2 onClose_single_completesLast [OF l2]]
        by (simp add: processJob_single_def Let_def SpawnError Some job1_def tr_def del: last.simps)
    qed
  qed
qed

lemma unfinished_fields:
  "unfinished j \<Longrightarrow>
     status j \<noteq> Completed \<and> completedAt j = None \<and> expiresAt j = None \<and> downloadUrl j = None"
  by (simp add: unfinished_def)

lemma finishedBy_fields:
  assumes "finishedBy u j"
  shows "status j = Completed \<and> completedAt j \<noteq> None \<and> expiresAt j \<noteq> None \<and> downloadUrl j \<noteq> None"
  using assms by (cases "put u") (simp_all add: finishedBy_def)

lemma completesLast_fields:
  assumes "completesLast u tr"
  shows "(\<forall>j \<in> set tr.
            (status j = Completed \<and> completedAt j \<noteq> None \<and> expiresAt j \<noteq> None \<and> downloadUrl j \<noteq> None) \<or>
            (status j \<noteq> Completed \<and> completedAt j = None \<and> expiresAt j = None \<and> downloadUrl j = None)) \<and>
         (\<forall>j \<in> set (butlast tr). status j \<noteq> Completed) \<and>
         (status (last tr) = Completed \<longrightarrow>
            completedAt (last tr) = Some (completed_now u) \<and>
            expiresAt (last tr) = Some (expires_now u + 24 * 60 * 60 * 1000))"
proof -
  define Q where "Q j \<longleftrightarrow>
      (status j = Completed \<and> completedAt j \<noteq> None \<and> expiresAt j \<noteq> None \<and> downloadUrl j \<noteq> None) \<or>
      (status j \<noteq> Completed \<and> completedAt j = None \<and> expiresAt j = None \<and> downloadUrl j = None)"
    for j :: Job
  have ne: "tr \<noteq> []" and b: "list_all unfinished (butlast tr)"
    and l: "unfinished (last tr) \<or> finishedBy u (last tr)"
    using assms by (simp_all add: completesLast_def)
  have 1: "unfinished j" if "j \<in> set (butlast tr)" for j
    using b that by (simp add: list_all_iff)
  have qu: "Q j" if "unfinished j" for j
    using unfinished_fields [OF that] by (simp add: Q_def)
  have qf: "Q j" if "finishedBy u j" for j
    using finishedBy_fields [OF that] by (simp add: Q_def)
  have ql: "Q (last tr)" using l qu qf by blast
  have "Q j" if "j \<in> set tr" for j
  proof -
    have "j \<in> set (butlast tr @ [last tr])" using that ne by simp
    then have "j \<in> set (butlast tr) \<or> j = last tr" by auto
    then show ?thesis using 1 qu ql by blast
  qed
  then have "\<forall>j \<in> set tr. Q j" by blast
  moreover have "\<forall>j \<in> set (butlast tr). status j \<noteq> Completed"
    using 1 unfinished_fields by blast
  moreover have "status (last tr) = Completed \<longrightarrow>
            completedAt (last tr) = Some (completed_now u) \<and>
            expiresAt (last tr) = Some (expires_now u + 24 * 60 * 60 * 1000)"
    using l by (auto simp: unfinished_def finishedBy_def)
  ultimately show ?thesis unfolding Q_def by blast
qed

lemma last_lifetime:
  "observed (processJob e job0) \<noteq> [] \<Longrightarrow> last (lifetime e job0) = finalJob e job0"
  by (simp add: lifetime_def finalJob_def)

lemma last_lifetime_single:
  "observed (processJob_single e job0) \<noteq> [] \<Longrightarrow> last (lifetime_single e job0) = finalJob_single e job0"
  by (simp add: lifetime_single_def finalJob_single_def)

lemma lifetime_completesLast:
  assumes "unfinished job0"
  shows "completesLast (upload e) (lifetime e job0)"
  unfolding lifetime_def
  using completesLast_append [of "[job0]", OF _ processJob_completesLast [OF assms]] assms
  by simp

lemma lifetime_single_completesLast:
  assumes "unfinished job0"
  shows "completesLast (run_upload e) (lifetime_single e job0)"
  unfolding lifetime_single_def
  using completesLast_append [of "[job0]", OF _ processJob_single_completesLast [OF assms]] assms
  by simp

text \<open>
  C6, as amended. From its creation on, in every state of a job that can be observed,
  \<open>completedAt\<close>, \<open>expiresAt\<close> and \<open>downloadUrl\<close> are all set when the status is
  \<open>completed\<close> and all unset otherwise; only the last state can be completed, so the
  three are set once, on the transition to \<open>completed\<close>. Then \<open>completedAt\<close> is the
  clock reading of line 217 and \<open>expiresAt\<close> is the clock reading of line 218 plus
  \<open>24 * 60 * 60 * 1000\<close>: the two are exactly 24 hours apart when the two readings
  are equal. This holds in the two-stage module and in the single-stage module.
\<close>

theorem C6_completion_fields:
  "(\<forall>j \<in> set (lifetime e (newJob i name path vp now)).
      (status j = Completed \<and> completedAt j \<noteq> None \<and> expiresAt j \<noteq> None \<and> downloadUrl j \<noteq> None) \<or>
      (status j \<noteq> Completed \<and> completedAt j = None \<and> expiresAt j = None \<and> downloadUrl j = None)) \<and>
   (\<forall>j \<in> set (butlast (lifetime e (newJob i name path vp now))). status j \<noteq> Completed) \<and>
   (status (finalJob e (newJob i name path vp now)) = Completed \<longrightarrow>
      completedAt (finalJob e (newJob i name path vp now)) = Some (completed_now (upload e)) \<and>
      expiresAt (finalJob e (newJob i name path vp now)) =
        Some (expires_now (upload e) + 24 * 60 * 60 * 1000)) \<and>
   (\<forall>j \<in> set (lifetime_single e1 (newJob i name path False now)).
      (status j = Completed \<and> completedAt j \<noteq> None \<and> expiresAt j \<noteq> None \<and> downloadUrl j \<noteq> None) \<or>
      (status j \<noteq> Completed \<and> completedAt j = None \<and> expiresAt j = None \<and> downloadUrl j = None)) \<and>
   (\<forall>j \<in> set (butlast (lifetime_single e1 (newJob i name path False now))). status j \<noteq> Completed) \<and>
   (status (finalJob_single e1 (newJob i name path False now)) = Completed \<longrightarrow>
      completedAt (finalJob_single e1 (newJob i name path False now)) = Some (completed_now (run_upload e1)) \<and>
      expiresAt (finalJob_single e1 (newJob i name path False now)) =
        Some (expires_now (run_upload e1) + 24 * 60 * 60 * 1000))"
proof -
  have n: "unfinished (newJob i name path b now)" for b
    by (simp add: newJob_def unfinished_def)
  have o: "last (lifetime e (newJob i name path vp now)) = finalJob e (newJob i name path vp now)"
    using processJob_completesLast [OF n [of vp], of e]
    by (intro last_lifetime) (simp add: completesLast_def)
  have o1: "last (lifetime_single e1 (newJob i name path False now)) =
      finalJob_single e1 (newJob i name path False now)"
    using processJob_single_completesLast [OF n [of False], of e1]
    by (intro last_lifetime_single) (simp add: completesLast_def)
  show ?thesis
    using completesLast_fields [OF lifetime_completesLast [OF n [of vp], of e]]
      completesLast_fields [OF lifetime_single_completesLast [OF n [of False], of e1]]
    unfolding o o1 by blast
qed

text \<open>The sample run of two stages: completed at 2000, expiring at 2001 plus 24 hours.\<close>

theorem C6_completion_fields_witness:
  "status (finalJob sampleEnv (sampleJob True)) = Completed \<and>
   completedAt (finalJob sampleEnv (sampleJob True)) = Some 2000 \<and>
   expiresAt (finalJob sampleEnv (sampleJob True)) = Some (2001 + 24 * 60 * 60 * 1000) \<and>
   list_all (\<lambda>j. status j \<noteq> Completed) (butlast (lifetime sampleEnv (sampleJob True)))"
proof -
  have "status (finalJob sampleEnv (sampleJob True)) = Completed"
    by (simp add: sample_defs run_defs)
  then show ?thesis
    using C6_completion_fields [of sampleEnv "''j1''" "''clip.mp4''" "''/up/j1.mp4''" True 1000]
    by (simp add: sampleJob_def sampleEnv_def list_all_iff)
qed

text \<open>
  C6 as stated fails: when the clock moves on between lines 217 and 218 (from 2000 to
  2001 in the sample run), \<open>expiresAt\<close> is not \<open>completedAt\<close> plus 24 hours.
\<close>

theorem C6_expiry_not_24h_after_completion:
  "completedAt (finalJob sampleEnv (sampleJob False)) = Some 2000 \<and>
   expiresAt (finalJob sampleEnv (sampleJob False)) = Some 86402001 \<and>
   expiresAt (finalJob sampleEnv (sampleJob False)) \<noteq> Some (2000 + 24 * 60 * 60 * 1000)"
  by (simp add: sample_defs run_defs)

section \<open>Progress over the lifetime of a job\<close>

lemma progress_addStep:
  "progress (addStep now p j) = (if progressLine p then nullish (p_percent p) (progress j) else progress j)"
  by (simp add: addStep_def progressLine_def)

lemma progress_visualStep:
  "progress (visualStep now p j) =
     (if progressLine p then remapped (nullish (p_percent p) 0) else progress j)"
  by (simp add: visualStep_def addStep_def progressLine_def nullish_def)

lemma sorted_push: "(x::int) \<le> y \<Longrightarrow> sorted (y # zs) \<Longrightarrow> sorted (x # y # zs)"
  by (simp only: sorted2)

lemma sorted_pop: "sorted ((x::int) # y # zs) \<Longrightarrow> x \<le> y \<and> sorted (y # zs)"
  by (simp only: sorted2)

lemma sorted_then:
  fixes xs ys :: "int list"
  shows "xs \<noteq> [] \<Longrightarrow> sorted xs \<Longrightarrow> sorted (last xs # ys) \<Longrightarrow> sorted (xs @ ys)"
proof (induction xs rule: induct_list012)
  case 1
  then show ?case by simp
next
  case (2 x)
  then show ?case by simp
next
  case (3 x y zs)
  have "x \<le> y" and "sorted (y # zs)"
    using sorted_pop [OF "3.prems"(2)] by simp_all
  moreover have "sorted (last (y # zs) # ys)"
    using "3.prems"(3) by simp
  ultimately have "sorted ((y # zs) @ ys)"
    using "3.IH"(2) by simp
  then have "sorted (y # (zs @ ys))" by simp
  then have "sorted (x # y # (zs @ ys))"
    using \<open>x \<le> y\<close> by (rule sorted_push [rotated])
  then show ?case by simp
qed

lemma feed_addStep_rising:
  "sorted (progress j # reported es) \<Longrightarrow> sorted (progress j # map progress (feed addStep es j))"
proof (induction es arbitrary: j)
  case Nil
  then show ?case by simp
next
  case (Cons a es)
  obtain p now where a: "a = (p, now)" by (cases a)
  let ?j = "addStep now p j"
  have f: "feed addStep (a # es) j = ?j # feed addStep es ?j"
    using a by simp
  show ?case
  proof (cases "progressLine p \<and> p_percent p \<noteq> None")
    case True
    then obtain n where n: "p_percent p = Some n" by auto
    have r: "reported (a # es) = n # reported es" using a True n by simp
    have pj: "progress ?j = n" using True n by (simp add: progress_addStep nullish_def)
    have "progress j \<le> n" and "sorted (n # reported es)"
      using sorted_pop [of "progress j" n "reported es"] Cons.prems r by simp_all
    then have "sorted (progress ?j # map progress (feed addStep es ?j))"
      using Cons.IH [of ?j] pj by simp
    then have "sorted (progress j # progress ?j # map progress (feed addStep es ?j))"
      using \<open>progress j \<le> n\<close> pj by (intro sorted_push) simp_all
    then show ?thesis by (simp only: f list.map)
  next
    case False
    have r: "reported (a # es) = reported es"
      using a False by (auto split: option.splits)
    have pj: "progress ?j = progress j"
      using False by (auto simp: progress_addStep nullish_def)
    have "sorted (progress ?j # map progress (feed addStep es ?j))"
      using Cons.IH [of ?j] Cons.prems r pj by simp
    then have "sorted (progress j # progress ?j # map progress (feed addStep es ?j))"
      using pj by (intro sorted_push) simp_all
    then show ?thesis by (simp only: f list.map)
  qed
qed

lemma feed_visualStep_rising:
  "sorted (progress j # map remapped (natives es)) \<Longrightarrow>
     sorted (progress j # map progress (feed visualStep es j))"
proof (induction es arbitrary: j)
  case Nil
  then show ?case by simp
next
  case (Cons a es)
  obtain p now where a: "a = (p, now)" by (cases a)
  let ?j = "visualStep now p j"
  have f: "feed visualStep (a # es) j = ?j # feed visualStep es ?j"
    using a by simp
  show ?case
  proof (cases "progressLine p")
    case True
    let ?n = "remapped (nullish (p_percent p) 0)"
    have r: "map remapped (natives (a # es)) = ?n # map remapped (natives es)"
      using a True by simp
    have pj: "progress ?j = ?n" using True by (simp add: progress_visualStep)
    have "progress j \<le> ?n" and "sorted (?n # map remapped (natives es))"
      using sorted_pop [of "progress j" ?n "map remapped (natives es)"] Cons.prems r by simp_all
    then have "sorted (progress ?j # map progress (feed visualStep es ?j))"
      using Cons.IH [of ?j] pj by simp
    then have "sorted (progress j # progress ?j # map progress (feed visualStep es ?j))"
      using \<open>progress j \<le> ?n\<close> pj by (intro sorted_push) simp_all
    then show ?thesis by (simp only: f list.map)
  next
    case False
    have r: "natives (a # es) = natives es"
      using a False by simp
    have pj: "progress ?j = progress j"
      using False by (simp add: progress_visualStep)
    have "sorted (progress ?j # map progress (feed visualStep es ?j))"
      using Cons.IH [of ?j] Cons.prems r pj by simp
    then have "sorted (progress j # progress ?j # map progress (feed visualStep es ?j))"
      using pj by (intro sorted_push) simp_all
    then show ?thesis by (simp only: f list.map)
  qed
qed

lemma feed_addStep_capped:
  "progress j \<le> cap \<Longrightarrow> list_all (\<lambda>n. n \<le> cap) (reported es) \<Longrightarrow>
     list_all (\<lambda>k. progress k \<le> cap) (j # feed addStep es j)"
proof (induction es arbitrary: j)
  case Nil
  then show ?case by simp
next
  case (Cons a es)
  obtain p now where a: "a = (p, now)" by (cases a)
  have "progress (addStep now p j) \<le> cap" and "list_all (\<lambda>n. n \<le> cap) (reported es)"
    using Cons.prems a by (auto simp: progress_addStep nullish_def split: option.splits if_splits)
  then have "list_all (\<lambda>k. progress k \<le> cap) (addStep now p j # feed addStep es (addStep now p j))"
    by (rule Cons.IH)
  then show ?case using Cons.prems(1) a by simp
qed

lemma feed_visualStep_capped:
  "progress j \<le> 95 \<Longrightarrow> list_all (\<lambda>n. 0 \<le> n \<and> n \<le> 100) (natives es) \<Longrightarrow>
     list_all (\<lambda>k. progress k \<le> 95) (j # feed visualStep es j)"
proof (induction es arbitrary: j)
  case Nil
  then show ?case by simp
next
  case (Cons a es)
  obtain p now where a: "a = (p, now)" by (cases a)
  have "progress (visualStep now p j) \<le> 95" and "list_all (\<lambda>n. 0 \<le> n \<and> n \<le> 100) (natives es)"
    using Cons.prems a remapped_bounds [of "nullish (p_percent p) 0"]
    by (auto simp: progress_visualStep split: if_splits)
  then have "list_all (\<lambda>k. progress k \<le> 95) (visualStep now p j # feed visualStep es (visualStep now p j))"
    by (rule Cons.IH)
  then show ?case using Cons.prems(1) a by simp
qed

lemma doUpload_rising:
  assumes "progress j \<le> 95"
  shows "sorted (progress j # map progress (observed (doUpload u fs path j)))"
  using assms
  by (cases "put u")
    (simp_all add: doUpload_def uploadArtifact_def uploadFailed_def markCompleted_def stageFailed_def)

lemma stageFailed_progress: "progress (stageFailed m l j) = progress j"
  by (simp add: stageFailed_def)

lemma sorted_from_zero:
  assumes "sorted ns" and "list_all (\<lambda>n. 0 \<le> n \<and> n \<le> cap) ns"
  shows "sorted ((0::int) # ns)"
  using assms by (simp add: list_all_iff)

lemma sorted_remapped:
  assumes "sorted ns" and "list_all (\<lambda>n. 0 \<le> n \<and> n \<le> 100) ns" and "p \<le> 50"
  shows "sorted (p # map remapped ns)"
proof -
  have "sorted (map remapped ns)"
    using assms(1) by (simp add: sorted_map sorted_wrt_mono_rel [of ns "(\<le>)"] remapped_mono)
  moreover have "p \<le> remapped n" if "n \<in> set ns" for n
  proof -
    have "0 \<le> n" and "n \<le> 100" using assms(2) that by (simp_all add: list_all_iff)
    then have "50 \<le> remapped n" using remapped_bounds by blast
    then show ?thesis using assms(3) by simp
  qed
  ultimately show ?thesis by auto
qed

lemma processJob_rising:
  assumes "progress job0 = 0"
    and "risingReports (if visualPerturb job0 then 50 else 95) (events (audio e))"
    and "risingNatives (events (visual e))"
  shows "sorted (map progress (lifetime e job0))"
proof -
  let ?S = "startJob job0"
  let ?tr1 = "feed addStep (events (audio e)) ?S"
  let ?V = "beforeVisual e job0"
  let ?tr2 = "feed visualStep (events (visual e)) ?V"
  let ?cap = "if visualPerturb job0 then 50 else 95 :: int"
  let ?X1 = "map progress (job0 # ?S # ?tr1)"
  let ?p1 = "progress (afterAudio e job0)"
  let ?p2 = "progress (afterVisual e job0)"
  have s0: "progress ?S = 0" using assms(1) by (simp add: startJob_def)
  have r: "sorted (reported (events (audio e)))"
    and rb: "list_all (\<lambda>n. 0 \<le> n \<and> n \<le> ?cap) (reported (events (audio e)))"
    using assms(2) by (simp_all add: risingReports_def)
  have "sorted (progress ?S # reported (events (audio e)))"
    unfolding s0 using r rb by (rule sorted_from_zero)
  then have a: "sorted (progress ?S # map progress ?tr1)"
    by (rule feed_addStep_rising)
  then have x1: "sorted ?X1"
    using assms(1) s0 by (simp del: sorted_simps add: sorted2)
  have "last (map progress (?S # ?tr1)) = progress (last (?S # ?tr1))"
    by (rule last_map) simp
  moreover have "last ?X1 = last (map progress (?S # ?tr1))"
    by simp
  ultimately have l1: "last ?X1 = ?p1"
    by (simp only: afterAudio_def)
  have "list_all (\<lambda>n. n \<le> ?cap) (reported (events (audio e)))"
    using rb by (simp add: list_all_iff)
  then have "list_all (\<lambda>k. progress k \<le> ?cap) (?S # ?tr1)"
    using s0 by (intro feed_addStep_capped) simp_all
  then have c1: "?p1 \<le> ?cap"
    unfolding afterAudio_def by (rule last_in_list_all)
  then have c1': "?p1 \<le> 95" by (simp split: if_splits)
  have pv: "progress ?V = ?p1" by (simp add: beforeVisual_def)
  consider (a) "audioFailed e job0"
    | (b) "\<not> audioFailed e job0" "\<not> visualPerturb job0"
    | (c) "\<not> audioFailed e job0" "visualPerturb job0"
    by blast
  then show ?thesis
  proof cases
    case a
    have "sorted (?X1 @ [?p1])"
      using x1 l1 by (intro sorted_then) simp_all
    then show ?thesis
      by (simp add: lifetime_def processJob_audio_failed [OF a] stageFailed_progress del: sorted_simps)
  next
    case b
    have "sorted (?X1 @ map progress (observed (doUpload (upload e) (files_after (audio e))
        (audioOutputPath job0) (afterAudio e job0))))"
      using x1 l1 doUpload_rising [OF c1'] by (intro sorted_then) simp_all
    then show ?thesis
      by (simp add: lifetime_def processJob_single_stage [OF b] del: sorted_simps)
  next
    case c
    have n: "sorted (natives (events (visual e)))"
      and nb: "list_all (\<lambda>n. 0 \<le> n \<and> n \<le> 100) (natives (events (visual e)))"
      using assms(3) by (simp_all add: risingNatives_def)
    have p50: "?p1 \<le> 50" using c1 c(2) by simp
    have "sorted (progress ?V # map remapped (natives (events (visual e))))"
      unfolding pv using n nb p50 by (rule sorted_remapped)
    then have v: "sorted (progress ?V # map progress ?tr2)"
      by (rule feed_visualStep_rising)
    let ?Y = "?p1 # map progress (?V # ?tr2)"
    have y: "sorted ?Y"
      using v pv by (simp del: sorted_simps add: sorted2)
    have "last (map progress (?V # ?tr2)) = progress (last (?V # ?tr2))"
      by (rule last_map) simp
    moreover have "last ?Y = last (map progress (?V # ?tr2))"
      by simp
    ultimately have ly: "last ?Y = ?p2"
      by (simp only: afterVisual_def)
    have "list_all (\<lambda>k. progress k \<le> 95) (?V # ?tr2)"
      using nb pv c1' by (intro feed_visualStep_capped) simp_all
    then have c2: "?p2 \<le> 95"
      unfolding afterVisual_def by (rule last_in_list_all)
    have tail: "sorted (?X1 @ map progress (?V # ?tr2) @ Z)" if "sorted (?p2 # Z)" for Z
    proof -
      have "sorted (?Y @ Z)"
        using y ly that by (intro sorted_then) simp_all
      then have "sorted (last ?X1 # (map progress (?V # ?tr2) @ Z))"
        by (simp only: l1 append_Cons)
      then show ?thesis
        using x1 by (intro sorted_then) simp_all
    qed
    show ?thesis
    proof (cases "visualFailed e job0")
      case True
      have "sorted (?X1 @ map progress (?V # ?tr2) @ [?p2])"
        by (rule tail) simp
      then show ?thesis
        by (simp add: lifetime_def processJob_visual_failed [OF c True] stageFailed_progress
            del: sorted_simps)
    next
      case False
      have "sorted (?X1 @ map progress (?V # ?tr2) @ map progress (observed (doUpload (upload e)
          (visualFiles e job0) (visualOutputPath job0) (afterVisual e job0))))"
        by (rule tail) (rule doUpload_rising [OF c2])
      then show ?thesis
        by (simp add: lifetime_def processJob_two_stage [OF c False] del: sorted_simps)
    qed
  qed
qed

text \<open>
  C7, as amended. The percents of the mandatory stage are stored as they come, with or
  without an optional stage to follow; nothing rescales them, and nothing keeps a
  later percent from being lower. Progress never goes down during the lifetime of a
  job when the percents that the mandatory stage reports never go down and lie
  between 0 and 95, or between 0 and 50 when the optional stage was requested, and the
  native percents of the optional stage (a missing one counted as 0) never go down
  and lie between 0 and 100.
\<close>

theorem C7_progress_never_goes_down:
  assumes "risingReports (if vp then 50 else 95) (events (audio e))"
    and "risingNatives (events (visual e))"
  shows "sorted (map progress (lifetime e (newJob i name path vp now)))"
  using assms by (intro processJob_rising) (simp_all add: newJob_def)

text \<open>The sample run of two stages: 50 from the mandatory stage, native 40 from the optional one.\<close>

theorem C7_progress_never_goes_down_witness:
  "risingReports 50 (events (audio sampleEnv)) \<and> risingNatives (events (visual sampleEnv)) \<and>
   sorted (map progress (lifetime sampleEnv (sampleJob True))) \<and>
   map progress (lifetime sampleEnv (sampleJob True)) = [0, 0, 50, 50, 68, 95, 100]"
proof -
  have h: "risingReports (if True then 50 else 95) (events (audio sampleEnv))"
    "risingNatives (events (visual sampleEnv))"
    by (simp_all add: risingReports_def risingNatives_def sample_defs progressLine_def truthy_def nullish_def)
  have "map progress (lifetime sampleEnv (sampleJob True)) = [0, 0, 50, 50, 68, 95, 100]"
    by (simp add: sample_defs run_defs)
  then show ?thesis
    using h C7_progress_never_goes_down [OF h, of "''j1''" "''clip.mp4''" "''/up/j1.mp4''" 1000]
    by (simp add: sampleJob_def)
qed

text \<open>
  C7 as stated fails: the mandatory stage reports 100, and the first line of the
  optional stage (native 40) takes the progress back to 68. With a single stage the
  start of the upload takes it from 100 back to 95.
\<close>

theorem C7_progress_goes_down:
  "map progress (lifetime (withAudioLines [(stepLine ''extract'' 100 ''Extraindo'', 1010)] sampleEnv)
      (sampleJob True)) = [0, 0, 100, 100, 68, 95, 100] \<and>
   \<not> sorted (map progress (lifetime (withAudioLines [(stepLine ''extract'' 100 ''Extraindo'', 1010)] sampleEnv)
      (sampleJob True))) \<and>
   map progress (lifetime (withAudioLines [(stepLine ''extract'' 100 ''Extraindo'', 1010)] sampleEnv)
      (sampleJob False)) = [0, 0, 100, 95, 100]"
  by (simp add: sample_defs run_defs)

section \<open>An error that is set is not always kept\<close>

text \<open>
  C3. The failure branches of lines 154, 186 and 227 keep an error that is already
  set, but the other writers of \<open>status\<close> and \<open>error\<close> do not look at it. A stage
  that reports an error and then exits with code 0, its output in place, leaves a
  job that is first \<open>error\<close> and then \<open>completed\<close>, with the message still set
  (line 214); a second error line replaces the message of the first (line 135); and
  a failing upload replaces it as well (line 224).
\<close>

theorem C3_error_is_overwritten:
  "map status (lifetime (withAudioLines [(errorLine ''boom'', 1010)] sampleEnv) (sampleJob False)) =
     [Queued, Processing, Error, Error, Completed] \<and>
   error (finalJob (withAudioLines [(errorLine ''boom'', 1010)] sampleEnv) (sampleJob False)) =
     Some ''boom'' \<and>
   error (finalJob
     (withAudioEnding (Close 1) {''/up/j1.mp4''}
        (withAudioLines [(errorLine ''first'', 1010), (errorLine ''second'', 1011)] sampleEnv))
     (sampleJob False)) = Some ''second'' \<and>
   error (finalJob
     (withUpload (PutFail ''Error: storage down'')
        (withAudioLines [(errorLine ''boom'', 1010)] sampleEnv))
     (sampleJob False)) = Some ''Erro ao enviar para S3: Error: storage down''"
  by (simp add: sample_defs run_defs)

section \<open>The scheduler\<close>



lemma started_append: "started (h @ h') = started h @ started h'"
  by (induction h rule: started.induct) simp_all













lemmas sched_defs = sched1_def sched2_def sched3_def sched4_def sched5_def sched6_def
  createJob_def scheduleWorker_def initial_def runWorker_def resume_def getJob_def Let_def


text \<open>The whole sample schedule: the pipelines run one after the other, in the order of creation.\<close>

lemma sample_schedule:
  "history sched6 =
     [Enqueued ''j1'', Enqueued ''j2'', Started ''j1'' 0, Finished 0, Started ''j2'' 1, Finished 1] \<and>
   awaiting sched6 = [] \<and> \<not> isWorkerRunning sched6 \<and> jobQueue sched6 = [] \<and>
   map_option status (getJob ''j1'' sched6) = Some Error \<and>
   map_option status (getJob ''j2'' sched6) = Some Error"
proof -
  have f: "status (finalJob e j) = Error" if "audioFailed e j" for e j
    using that by (simp add: finalJob_def processJob_audio_failed stageFailed_status)
  have a: "audioFailed (withAudioEnding (Close 2) fs sampleEnv) j" for fs j
    by (simp add: audioFailed_def withAudioEnding_def exitCode_def)
  show ?thesis
    by (simp add: sched_defs newJob_def startJob_def f a)
qed

text \<open>
  C8, as amended. \<^verbatim>\<open>createJob\<close> never fails. It returns a new job with status
  \<open>queued\<close>, makes the registry map the id to it (whatever the id was mapped to
  before), appends the id to the queue, and schedules the worker when the flag is not
  set.
\<close>

theorem C8_create_never_fails:
  "fst (createJob i name path vp now s) = newJob i name path vp now \<and>
   status (fst (createJob i name path vp now s)) = Queued \<and>
   getJob i (snd (createJob i name path vp now s)) = Some (newJob i name path vp now) \<and>
   jobs (snd (createJob i name path vp now s)) = (jobs s)(i \<mapsto> nextAddr s) \<and>
   jobQueue (snd (createJob i name path vp now s)) = jobQueue s @ [i] \<and>
   immediates (snd (createJob i name path vp now s)) =
     (if isWorkerRunning s then immediates s else Suc (immediates s)) \<and>
   isWorkerRunning (snd (createJob i name path vp now s)) = isWorkerRunning s"
  by (simp add: createJob_def scheduleWorker_def getJob_def Let_def newJob_def)

text \<open>
  C8 as stated fails: a second \<^verbatim>\<open>createJob\<close> with the id of a job that is still
  queued does not fail; the registry then shows the second job, and the id is in
  the queue twice.
\<close>

theorem C8_second_create_replaces_job:
  "getJob ''j1'' sched1 = Some (newJob ''j1'' ''clip.mp4'' ''/up/j1.mp4'' False 1000) \<and>
   getJob ''j1'' (snd (createJob ''j1'' ''other.mp4'' ''/up/other.mp4'' True 2000 sched1)) =
     Some (newJob ''j1'' ''other.mp4'' ''/up/other.mp4'' True 2000) \<and>
   jobQueue (snd (createJob ''j1'' ''other.mp4'' ''/up/other.mp4'' True 2000 sched1)) = [''j1'', ''j1'']"
  by (simp add: sched_defs newJob_def)

section \<open>Scenarios\<close>

text \<open>
  \<open>whileLoop\<close> leaves a started job as \<open>startJob\<close> makes it and \<open>resume\<close> runs
  \<open>processJob\<close> on that; this is the run of \<open>processJob\<close> on the job as it was
  dequeued.
\<close>

lemma processJob_startJob: "processJob e (startJob job0) = processJob e job0"
proof -
  have "startJob (startJob job0) = startJob job0"
    by (simp add: startJob_def audioOutputPath_def visualOutputPath_def)
  moreover have "audioOutputPath (startJob job0) = audioOutputPath job0"
    "visualOutputPath (startJob job0) = visualOutputPath job0"
    by (simp_all add: startJob_def audioOutputPath_def visualOutputPath_def)
  ultimately show ?thesis
    by (simp add: processJob_def)
qed

text \<open>
  The scenarios of the specification, on the sample runs. A single stage that reports
  50 and succeeds: the job goes from \<open>queued\<close> through \<open>processing\<close> to
  \<open>completed\<close>, ends with progress 100 and a download url, and both local files are
  gone.
\<close>

lemma scenario_single_stage_success:
  "map status (lifetime sampleEnv (sampleJob False)) = [Queued, Processing, Processing, Processing, Completed] \<and>
   progress (finalJob sampleEnv (sampleJob False)) = 100 \<and>
   downloadUrl (finalJob sampleEnv (sampleJob False)) = Some ''https://store/j1'' \<and>
   files (processJob sampleEnv (sampleJob False)) = {''/up/j1_final.mp4''} \<and>
   calls (processJob sampleEnv (sampleJob False)) =
     [RunPython audioScript [''/up/j1.mp4'', ''/up/j1_processed.mp4''],
      StoragePut ''processed/j1/clip_processed.mp4'']"
  by (simp add: sample_defs run_defs s3Key_def) auto

text \<open>
  The optional stage exits with code 3 after the mandatory stage succeeded: the
  intermediate output and the input are removed, the job ends in \<open>error\<close>, and
  nothing is put to storage.
\<close>

lemma scenario_optional_stage_fails:
  "status (finalJob (withVisualEnding (Close 3) {''/up/j1.mp4'', ''/up/j1_processed.mp4''} sampleEnv)
     (sampleJob True)) = Error \<and>
   error (finalJob (withVisualEnding (Close 3) {''/up/j1.mp4'', ''/up/j1_processed.mp4''} sampleEnv)
     (sampleJob True)) = Some (visualFailedMessage 3) \<and>
   files (processJob (withVisualEnding (Close 3) {''/up/j1.mp4'', ''/up/j1_processed.mp4''} sampleEnv)
     (sampleJob True)) = {} \<and>
   calls (processJob (withVisualEnding (Close 3) {''/up/j1.mp4'', ''/up/j1_processed.mp4''} sampleEnv)
     (sampleJob True)) =
     [RunPython audioScript [''/up/j1.mp4'', ''/up/j1_processed.mp4''],
      RunPython visualScript [''/up/j1_processed.mp4'', ''/up/j1_final.mp4'', ''3.0'']]"
  by (simp add: sample_defs run_defs) auto

text \<open>
  The storage rejects the upload: the job ends in \<open>error\<close> with the cause in its
  message, and the local output is not removed.
\<close>

lemma scenario_storage_rejects:
  "status (finalJob (withUpload (PutFail ''Error: storage down'') sampleEnv) (sampleJob False)) = Error \<and>
   error (finalJob (withUpload (PutFail ''Error: storage down'') sampleEnv) (sampleJob False)) =
     Some ''Erro ao enviar para S3: Error: storage down'' \<and>
   ''/up/j1_processed.mp4'' \<in> files (processJob (withUpload (PutFail ''Error: storage down'') sampleEnv)
     (sampleJob False))"
  by (simp add: sample_defs run_defs)

end
